theory Spec2Isabelle
  imports Main
begin

section \<open>Language detection service: data model\<close>

text \<open>
  Shallow embedding of
  \<^verbatim>\<open>src/vs/workbench/services/languageDetection/browser/languageDetectionWorkerServiceImpl.ts\<close>.
  JavaScript runs the service on one thread: every function body below is one atomic step
  up to its next \<^verbatim>\<open>await\<close>, and asynchronous continuations are separate events.
\<close>

subsection \<open>JavaScript values\<close>

text \<open>A thrown JavaScript exception, identified by its message.\<close>

datatype error = Error string

text \<open>The values \<^verbatim>\<open>JSON.parse\<close> produces and \<^verbatim>\<open>JSON.stringify\<close> consumes.\<close>

datatype json =
    JNull
  | JBool bool
  | JNum int
  | JStr string
  | JArr "json list"
  | JObj "(string \<times> json) list"

text \<open>
  A configuration value as \<^verbatim>\<open>IConfigurationService.getValue\<close> hands it out, and the
  truthiness test that \<^verbatim>\<open>if (useHistory ...)\<close> and \<^verbatim>\<open>useHistory ? ... : ...\<close> apply to it.
\<close>

datatype jsvalue =
    Undefined
  | Null
  | Boolean bool
  | Number int
  | String string
  | Array "jsvalue list"

fun truthy :: "jsvalue \<Rightarrow> bool" where
  "truthy Undefined = False"
| "truthy Null = False"
| "truthy (Boolean b) = b"
| "truthy (Number n) = (n \<noteq> 0)"
| "truthy (String s) = (s \<noteq> [])"
| "truthy (Array xs) = True"

text \<open>
  Truthiness of a \<^verbatim>\<open>string | undefined\<close>: \<^verbatim>\<open>undefined\<close> and the empty string are falsy.
\<close>

fun truthy_string :: "string option \<Rightarrow> bool" where
  "truthy_string None = False"
| "truthy_string (Some s) = (s \<noteq> [])"

text \<open>A \<^verbatim>\<open>URI\<close> as this file builds it: only \<^verbatim>\<open>URI.file(path)\<close> occurs.\<close>

datatype uri = URI_file string

subsection \<open>The native \<^verbatim>\<open>Set<string>\<close>\<close>

text \<open>
  A JavaScript \<^verbatim>\<open>Set\<close> keeps its elements in insertion order and never holds one twice.
  \<^verbatim>\<open>forEach\<close> visits them in that order.
\<close>

type_synonym 'a jsset = "'a list"

definition Set_add :: "'a \<Rightarrow> 'a jsset \<Rightarrow> 'a jsset" where
  "Set_add x s = (if x \<in> set s then s else s @ [x])"

subsection \<open>The bounded history cache\<close>

text \<open>
  \<^verbatim>\<open>LRUCache<string, true>\<close> comes from \<^verbatim>\<open>vs/base/common/map\<close>. The only value ever stored is
  \<^verbatim>\<open>true\<close>, so a cache is the list of its keys, least recently touched first, with its limit.
\<close>

record 'k LRUCache =
  limit :: nat
  entries :: "'k list"

text \<open>\<^verbatim>\<open>new LRUCache<string, true>(n)\<close>\<close>

definition LRUCache_new :: "nat \<Rightarrow> 'k LRUCache" where
  "LRUCache_new n = \<lparr>limit = n, entries = []\<rparr>"

text \<open>
  Modelled from the spec: \<^verbatim>\<open>LRUCache.set\<close> of \<^verbatim>\<open>vs/base/common/map\<close> is missing. The spec's
  HistorySet: touching a present entry moves it to the most-recent position, an insert past the
  capacity drops the least recently touched.
\<close>

definition LRUCache_set :: "'k \<Rightarrow> 'k LRUCache \<Rightarrow> 'k LRUCache" where
  "LRUCache_set k c =
     (let es = filter (\<lambda>k'. k' \<noteq> k) (entries c) @ [k]
      in c\<lparr>entries := drop (length es - limit c) es\<rparr>)"

text \<open>
  Modelled from the spec: \<^verbatim>\<open>LRUCache.keys\<close> is missing. It yields the current ordered contents.
\<close>

definition LRUCache_keys :: "'k LRUCache \<Rightarrow> 'k list" where
  "LRUCache_keys c = entries c"

definition LRUCache_size :: "'k LRUCache \<Rightarrow> nat" where
  "LRUCache_size c = length (entries c)"

text \<open>
  Modelled from the spec: \<^verbatim>\<open>LRUCache.toJSON\<close> is missing. A scope's slot holds a JSON array of
  the language ids, in recency order.
\<close>

definition LRUCache_toJSON :: "string LRUCache \<Rightarrow> json" where
  "LRUCache_toJSON c = JArr (map JStr (entries c))"

fun json_string :: "json \<Rightarrow> string option" where
  "json_string (JStr s) = Some s"
| "json_string _ = None"

text \<open>
  Modelled from the spec: \<^verbatim>\<open>LRUCache.fromJSON\<close> is missing. A JSON array of language ids
  replaces the contents, each id inserted in turn; any other payload is malformed, leaves the
  cache empty and throws. The result pairs the cache as the call leaves it with the exception,
  since the caller's \<^verbatim>\<open>catch\<close> keeps the mutation.
\<close>

definition LRUCache_fromJSON :: "json \<Rightarrow> string LRUCache \<Rightarrow> string LRUCache \<times> error option" where
  "LRUCache_fromJSON data c =
     (case data of
        JArr xs \<Rightarrow>
          (if list_all (\<lambda>x. json_string x \<noteq> None) xs
           then (fold LRUCache_set (map (\<lambda>x. the (json_string x)) xs) (c\<lparr>entries := []\<rparr>), None)
           else (c\<lparr>entries := []\<rparr>, Some (Error ''TypeError'')))
      | _ \<Rightarrow> (c\<lparr>entries := []\<rparr>, Some (Error ''TypeError'')))"

subsection \<open>Collaborators\<close>

text \<open>
  The services the constructor receives and the two \<^verbatim>\<open>JSON\<close> built-ins, none of them part
  of this file: \<^verbatim>\<open>ILanguageService.isRegisteredLanguageId\<close>,
  \<^verbatim>\<open>ILanguageService.guessLanguageIdByFilepathOrFirstLine\<close> (\<^verbatim>\<open>null\<close> is \<open>None\<close>),
  \<^verbatim>\<open>JSON.parse\<close> (\<open>None\<close> when it throws a SyntaxError) and \<^verbatim>\<open>JSON.stringify\<close>.
\<close>

record env =
  isRegisteredLanguageId :: "string \<Rightarrow> bool"
  guessLanguageIdByFilepathOrFirstLine :: "uri \<Rightarrow> string option"
  JSON_parse :: "string \<Rightarrow> json option"
  JSON_stringify :: "json \<Rightarrow> string"

datatype StorageScope = GLOBAL | WORKSPACE

text \<open>
  \<^verbatim>\<open>IStorageService\<close> restricted to the one key \<^verbatim>\<open>openedLanguagesStorageKey\<close>: a slot per
  scope. \<^verbatim>\<open>get(key, scope, fallback)\<close> returns the fallback when the slot is empty.
\<close>

type_synonym storage = "StorageScope \<Rightarrow> string option"

definition storage_get :: "storage \<Rightarrow> StorageScope \<Rightarrow> string \<Rightarrow> string" where
  "storage_get s scope fallback = (case s scope of None \<Rightarrow> fallback | Some v \<Rightarrow> v)"

definition storage_store :: "storage \<Rightarrow> string \<Rightarrow> StorageScope \<Rightarrow> storage" where
  "storage_store s v scope = s(scope \<mapsto> v)"

subsection \<open>The service's state\<close>

text \<open>
  The private fields of \<^verbatim>\<open>LanguageDetectionService\<close>, the storage service it writes to, and
  two counters that only observe: how often \<^verbatim>\<open>getWorkspaceFileExtensions\<close> has been called,
  and how many of those calls have not yet delivered their result.
\<close>

record service =
  hasResolvedWorkspaceLanguageIds :: bool
  workspaceLanguageIds :: "string jsset"
  sessionOpenedLanguageIds :: "string jsset"
  historicalGlobalOpenedLanguageIds :: "string LRUCache"
  historicalWorkspaceOpenedLanguageIds :: "string LRUCache"
  storageService :: storage
  enumerationsStarted :: nat
  enumerationsPending :: nat

text \<open>The field initialisers (lines 41--45), before the constructor body runs.\<close>

definition fields_init :: "storage \<Rightarrow> service" where
  "fields_init st =
     \<lparr>hasResolvedWorkspaceLanguageIds = False,
      workspaceLanguageIds = [],
      sessionOpenedLanguageIds = [],
      historicalGlobalOpenedLanguageIds = LRUCache_new 10,
      historicalWorkspaceOpenedLanguageIds = LRUCache_new 10,
      storageService = st,
      enumerationsStarted = 0,
      enumerationsPending = 0\<rparr>"

section \<open>Operations of \<^verbatim>\<open>LanguageDetectionService\<close>\<close>

text \<open>
  \<^verbatim>\<open>getLanguageId\<close> (lines 99--107). The result comes with the calls made to the language
  registry on the way, in order; \<^verbatim>\<open>?? undefined\<close> turns the registry's \<^verbatim>\<open>null\<close> into
  \<^verbatim>\<open>undefined\<close>, both \<open>None\<close> here.
\<close>

datatype registry_query =
    Query_isRegisteredLanguageId string
  | Query_guessLanguageIdByFilepathOrFirstLine uri

definition getLanguageId :: "env \<Rightarrow> string option \<Rightarrow> string option \<times> registry_query list" where
  "getLanguageId e language =
     (if \<not> truthy_string language then (None, [])
      else if isRegisteredLanguageId e (the language)
      then (language, [Query_isRegisteredLanguageId (the language)])
      else (guessLanguageIdByFilepathOrFirstLine e (URI_file (''file.'' @ the language)),
            [Query_isRegisteredLanguageId (the language),
             Query_guessLanguageIdByFilepathOrFirstLine (URI_file (''file.'' @ the language))]))"

text \<open>
  \<^verbatim>\<open>resolveWorkspaceLanguageIds\<close> (lines 83--93) up to the point where it returns: the flag is
  set and the enumeration is requested. The \<^verbatim>\<open>then\<close> callback runs later, as
  \<open>workspaceFileExtensions_resolved\<close>.
\<close>

definition resolveWorkspaceLanguageIds :: "service \<Rightarrow> service" where
  "resolveWorkspaceLanguageIds s =
     s\<lparr>hasResolvedWorkspaceLanguageIds := True,
       enumerationsStarted := enumerationsStarted s + 1,
       enumerationsPending := enumerationsPending s + 1\<rparr>"

text \<open>The body of the \<^verbatim>\<open>forEach\<close> in the \<^verbatim>\<open>then\<close> callback (lines 86--91).\<close>

definition add_extension :: "env \<Rightarrow> string \<Rightarrow> string jsset \<Rightarrow> string jsset" where
  "add_extension e ext ids =
     (case fst (getLanguageId e (Some ext)) of
        None \<Rightarrow> ids
      | Some langId \<Rightarrow> if langId \<noteq> [] then Set_add langId ids else ids)"

definition workspaceFileExtensions_resolved :: "env \<Rightarrow> string list \<Rightarrow> service \<Rightarrow> service" where
  "workspaceFileExtensions_resolved e extensions s =
     (if enumerationsPending s = 0 then s
      else s\<lparr>workspaceLanguageIds := fold (add_extension e) extensions (workspaceLanguageIds s),
             enumerationsPending := enumerationsPending s - 1\<rparr>)"

text \<open>
  \<^verbatim>\<open>getLanguageBiases\<close> (lines 109--126) builds a plain object, \<^verbatim>\<open>{}\<close>, whose prototype is
  \<^verbatim>\<open>Object.prototype\<close>. The object is the map of its own properties; what it stores is a
  number or, once \<^verbatim>\<open>+\<close> has concatenated, a string. The weights are small integers, exact
  in a JavaScript number.
\<close>

datatype bias_value = Num int | Str string

type_synonym biases = "string \<rightharpoonup> bias_value"

text \<open>
  What reading a name that the object does not own finds on \<^verbatim>\<open>Object.prototype\<close>: one of the
  native functions, or, for the accessor \<^verbatim>\<open>__proto__\<close>, the prototype object itself.
\<close>

datatype inherited = NativeFunction string | PrototypeObject

definition Object_prototype :: "string \<Rightarrow> inherited option" where
  "Object_prototype name =
     (if name = ''constructor'' then Some (NativeFunction ''Object'')
      else if name \<in> set [''__defineGetter__'', ''__defineSetter__'', ''hasOwnProperty'',
                          ''__lookupGetter__'', ''__lookupSetter__'', ''isPrototypeOf'',
                          ''propertyIsEnumerable'', ''toString'', ''valueOf'', ''toLocaleString'']
      then Some (NativeFunction name)
      else if name = ''__proto__'' then Some PrototypeObject
      else None)"

text \<open>
  The string \<^verbatim>\<open>+\<close> converts such a value to: the source text of a native function as V8
  prints it, and \<^verbatim>\<open>[object Object]\<close> for the prototype object.
\<close>

fun inherited_toString :: "inherited \<Rightarrow> string" where
  "inherited_toString (NativeFunction name) = ''function '' @ name @ ''() { [native code] }''"
| "inherited_toString PrototypeObject = ''[object Object]''"

text \<open>The decimal digits of an integer, as \<^verbatim>\<open>+\<close> appends a number to a string.\<close>

fun digits_of_nat :: "nat \<Rightarrow> string" where
  "digits_of_nat n =
     (if n < 10 then [''0123456789'' ! n]
      else digits_of_nat (n div 10) @ [''0123456789'' ! (n mod 10)])"

definition Number_toString :: "int \<Rightarrow> string" where
  "Number_toString n = (if n < 0 then ''-'' @ digits_of_nat (nat (- n)) else digits_of_nat (nat n))"

text \<open>
  \<^verbatim>\<open>biases[lang]\<close> read: an own property, else the inherited one, else \<^verbatim>\<open>undefined\<close>
  (\<open>None\<close>).
\<close>

definition property_get :: "biases \<Rightarrow> string \<Rightarrow> (bias_value + inherited) option" where
  "property_get b name =
     (case b name of
        Some v \<Rightarrow> Some (Inl v)
      | None \<Rightarrow> map_option Inr (Object_prototype name))"

text \<open>\<^verbatim>\<open>(biases[lang] ?? 0) + w\<close>: only \<^verbatim>\<open>undefined\<close> is replaced by 0.\<close>

definition plus_weight :: "(bias_value + inherited) option \<Rightarrow> int \<Rightarrow> bias_value" where
  "plus_weight current w =
     (case current of
        None \<Rightarrow> Num (0 + w)
      | Some (Inl (Num n)) \<Rightarrow> Num (n + w)
      | Some (Inl (Str t)) \<Rightarrow> Str (t @ Number_toString w)
      | Some (Inr i) \<Rightarrow> Str (inherited_toString i @ Number_toString w))"

text \<open>
  \<^verbatim>\<open>biases[lang] = v\<close> write: the inherited functions are writable data properties, so the
  write creates an own property; for \<^verbatim>\<open>__proto__\<close> it calls the inherited setter, which
  ignores a value that is neither an object nor \<^verbatim>\<open>null\<close>.
\<close>

definition property_set :: "biases \<Rightarrow> string \<Rightarrow> bias_value \<Rightarrow> biases" where
  "property_set b name v = (if name = ''__proto__'' then b else b(name \<mapsto> v))"

text \<open>The body of each \<^verbatim>\<open>forEach\<close>: \<^verbatim>\<open>biases[lang] = (biases[lang] ?? 0) + w\<close>.\<close>

definition add_bias :: "int \<Rightarrow> string \<Rightarrow> biases \<Rightarrow> biases" where
  "add_bias w lang b = property_set b lang (plus_weight (property_get b lang) w)"

definition getLanguageBiases :: "service \<Rightarrow> biases" where
  "getLanguageBiases s =
     (let b0 = Map.empty;
          b1 = fold (add_bias 4) (sessionOpenedLanguageIds s) b0;
          b2 = fold (add_bias 3) (workspaceLanguageIds s) b1;
          b3 = fold (add_bias 2) (LRUCache_keys (historicalWorkspaceOpenedLanguageIds s)) b2;
          b4 = fold (add_bias 1) (LRUCache_keys (historicalGlobalOpenedLanguageIds s)) b3
      in b4)"

text \<open>
  \<^verbatim>\<open>detectLanguage\<close> (lines 128--141) in its two halves around the \<^verbatim>\<open>await\<close>. The first
  half reads the configuration value, triggers the workspace resolution and yields the bias
  argument for the worker client; the second maps the worker's raw code to a language id.
\<close>

definition detectLanguage_request :: "jsvalue \<Rightarrow> service \<Rightarrow> biases option \<times> service" where
  "detectLanguage_request useHistory s =
     (let s' = (if truthy useHistory \<and> \<not> hasResolvedWorkspaceLanguageIds s
                then resolveWorkspaceLanguageIds s else s);
          biases = (if truthy useHistory then Some (getLanguageBiases s') else None)
      in (biases, s'))"

definition detectLanguage_response ::
  "env \<Rightarrow> string option \<Rightarrow> string option \<times> registry_query list" where
  "detectLanguage_response e language =
     (if truthy_string language then getLanguageId e language else (None, []))"

text \<open>
  The whole call, with the worker client as a function of the arguments it is given: it
  answers with a raw code, with \<^verbatim>\<open>undefined\<close>, or rejects. A rejection propagates. The
  result is what the caller's promise settles to, the registry calls made, and the new state.
\<close>

definition detectLanguage ::
  "env \<Rightarrow> jsvalue \<Rightarrow> (uri \<Rightarrow> biases option \<Rightarrow> error + string option) \<Rightarrow> uri \<Rightarrow> service
     \<Rightarrow> (error + string option) \<times> registry_query list \<times> service" where
  "detectLanguage e useHistory workerClient resource s =
     (let (biases, s') = detectLanguage_request useHistory s
      in (case workerClient resource biases of
            Inl err \<Rightarrow> (Inl err, [], s')
          | Inr language \<Rightarrow>
              (let (langId, queries) = detectLanguage_response e language
               in (Inr langId, queries, s'))))"

text \<open>
  \<^verbatim>\<open>initEditorOpenedListeners\<close>, the two loads (lines 144--152). Each \<^verbatim>\<open>try\<close> block parses
  the slot of one scope and hands the result to \<^verbatim>\<open>fromJSON\<close>; the empty \<^verbatim>\<open>catch\<close> drops
  whatever either of them throws. Both blocks call \<^verbatim>\<open>fromJSON\<close> on
  \<^verbatim>\<open>historicalGlobalOpenedLanguageIds\<close>, as the source does.
\<close>

definition initEditorOpenedListeners :: "env \<Rightarrow> service \<Rightarrow> service" where
  "initEditorOpenedListeners e s =
     (let s1 = (case JSON_parse e (storage_get (storageService s) GLOBAL ''[]'') of
                  None \<Rightarrow> s
                | Some globalLangHistroyData \<Rightarrow>
                    s\<lparr>historicalGlobalOpenedLanguageIds :=
                        fst (LRUCache_fromJSON globalLangHistroyData
                               (historicalGlobalOpenedLanguageIds s))\<rparr>);
          s2 = (case JSON_parse e (storage_get (storageService s1) WORKSPACE ''[]'') of
                  None \<Rightarrow> s1
                | Some workspaceLangHistroyData \<Rightarrow>
                    s1\<lparr>historicalGlobalOpenedLanguageIds :=
                         fst (LRUCache_fromJSON workspaceLangHistroyData
                                (historicalGlobalOpenedLanguageIds s1))\<rparr>)
      in s2)"

text \<open>The listener registered on \<^verbatim>\<open>onDidActiveEditorChange\<close> (lines 154--163).\<close>

definition onDidActiveEditorChange :: "env \<Rightarrow> string option \<Rightarrow> service \<Rightarrow> service" where
  "onDidActiveEditorChange e activeLanguage s =
     (if truthy_string activeLanguage then
        (let lang = the activeLanguage;
             g = LRUCache_set lang (historicalGlobalOpenedLanguageIds s);
             w = LRUCache_set lang (historicalWorkspaceOpenedLanguageIds s);
             st1 = storage_store (storageService s) (JSON_stringify e (LRUCache_toJSON g)) GLOBAL;
             st2 = storage_store st1 (JSON_stringify e (LRUCache_toJSON w)) WORKSPACE
         in s\<lparr>sessionOpenedLanguageIds := Set_add lang (sessionOpenedLanguageIds s),
              historicalGlobalOpenedLanguageIds := g,
              historicalWorkspaceOpenedLanguageIds := w,
              storageService := st2\<rparr>)
      else s)"

text \<open>The constructor (lines 47--81): field initialisers, then the history load.\<close>

definition LanguageDetectionService_new :: "env \<Rightarrow> storage \<Rightarrow> service" where
  "LanguageDetectionService_new e st = initEditorOpenedListeners e (fields_init st)"

text \<open>
  What can happen to a service during its lifetime, in any order: a \<^verbatim>\<open>detectLanguage\<close> call
  runs up to its \<^verbatim>\<open>await\<close> (with the configuration value it reads), a pending file-extension
  enumeration delivers its result, the active editor changes.
\<close>

datatype event =
    DetectLanguage jsvalue
  | WorkspaceFileExtensions "string list"
  | ActiveEditorChange "string option"

fun service_step :: "env \<Rightarrow> event \<Rightarrow> service \<Rightarrow> service" where
  "service_step e (DetectLanguage useHistory) s = snd (detectLanguage_request useHistory s)"
| "service_step e (WorkspaceFileExtensions exts) s = workspaceFileExtensions_resolved e exts s"
| "service_step e (ActiveEditorChange lang) s = onDidActiveEditorChange e lang s"

definition service_run :: "env \<Rightarrow> storage \<Rightarrow> event list \<Rightarrow> service" where
  "service_run e st evs = fold (service_step e) evs (LanguageDetectionService_new e st)"

section \<open>Operations of \<^verbatim>\<open>LanguageDetectionWorkerClient\<close>\<close>

text \<open>
  The promise stored in \<^verbatim>\<open>workerPromise\<close>. Its executor runs synchronously, so the promise is
  settled when it is stored: resolved with the new worker client, or rejected with what the
  constructor threw. The number tells promise objects of different creation attempts apart.
\<close>

datatype 'w promise = Promise nat "error + 'w"

fun settled :: "'w promise \<Rightarrow> error + 'w" where
  "settled (Promise n r) = r"

record 'w client =
  workerPromise :: "'w promise option"
  creationAttempts :: nat

definition client_new :: "'w client" where
  "client_new = \<lparr>workerPromise = None, creationAttempts = 0\<rparr>"

text \<open>
  What the client calls and this file does not define: \<^verbatim>\<open>new SimpleWorkerClient(...)\<close> (its
  outcome may depend on which attempt it is), the inherited \<^verbatim>\<open>_withSyncedResources\<close> (an
  exception or none), \<^verbatim>\<open>getProxyObject\<close>, the worker's own \<^verbatim>\<open>detectLanguage\<close> behind the
  proxy, and \<^verbatim>\<open>URI.toString\<close>.
\<close>

record ('w, 'p) boundary =
  newSimpleWorkerClient :: "nat \<Rightarrow> error + 'w"
  withSyncedResources :: "uri \<Rightarrow> error option"
  getProxyObject :: "'w \<Rightarrow> error + 'p"
  proxy_detectLanguage :: "'p \<Rightarrow> string \<Rightarrow> biases option \<Rightarrow> error + string option"
  URI_toString :: "uri \<Rightarrow> string"

text \<open>\<^verbatim>\<open>_getOrCreateLanguageDetectionWorker\<close> (lines 224--238).\<close>

definition getOrCreateLanguageDetectionWorker ::
  "('w, 'p) boundary \<Rightarrow> 'w client \<Rightarrow> 'w promise \<times> 'w client" where
  "getOrCreateLanguageDetectionWorker B c =
     (case workerPromise c of
        Some p \<Rightarrow> (p, c)
      | None \<Rightarrow>
          (let p = Promise (creationAttempts c) (newSimpleWorkerClient B (creationAttempts c))
           in (p, c\<lparr>workerPromise := Some p, creationAttempts := creationAttempts c + 1\<rparr>)))"

text \<open>
  The continuation of \<^verbatim>\<open>_getProxy\<close> and \<^verbatim>\<open>detectLanguage\<close> (lines 240--242, 288) once the
  awaited promise has settled.
\<close>

definition after_worker ::
  "('w, 'p) boundary \<Rightarrow> 'w promise \<Rightarrow> uri \<Rightarrow> biases option \<Rightarrow> error + string option" where
  "after_worker B p resource langBiases =
     (case settled p of
        Inl err \<Rightarrow> Inl err
      | Inr w \<Rightarrow>
          (case getProxyObject B w of
             Inl err \<Rightarrow> Inl err
           | Inr proxy \<Rightarrow> proxy_detectLanguage B proxy (URI_toString B resource) langBiases))"

text \<open>The client's \<^verbatim>\<open>detectLanguage\<close> (lines 286--289), run to completion without interleaving.\<close>

definition client_detectLanguage ::
  "('w, 'p) boundary \<Rightarrow> uri \<Rightarrow> biases option \<Rightarrow> 'w client
     \<Rightarrow> (error + string option) \<times> 'w client" where
  "client_detectLanguage B resource langBiases c =
     (case withSyncedResources B resource of
        Some err \<Rightarrow> (Inl err, c)
      | None \<Rightarrow>
          (let (p, c') = getOrCreateLanguageDetectionWorker B c
           in (after_worker B p resource langBiases, c')))"

text \<open>
  Concurrent calls. Each call is a task that is suspended at an \<^verbatim>\<open>await\<close>: first on the
  resource synchronisation, then on the worker promise it received, and then it is done. The
  scheduler resumes any suspended task at any time; \<open>received\<close> logs the promise each
  \<^verbatim>\<open>_getOrCreateLanguageDetectionWorker\<close> call returned.
\<close>

datatype 'w task =
    Syncing uri "biases option"
  | Awaiting "'w promise" uri "biases option"
  | Done "error + string option"

record 'w pool =
  the_client :: "'w client"
  tasks :: "'w task list"
  received :: "'w promise list"

definition pool_new :: "'w pool" where
  "pool_new = \<lparr>the_client = client_new, tasks = [], received = []\<rparr>"

datatype client_event = Call uri "biases option" | Resume nat

fun resume_task :: "('w, 'p) boundary \<Rightarrow> nat \<Rightarrow> 'w task \<Rightarrow> 'w pool \<Rightarrow> 'w pool" where
  "resume_task B i (Syncing resource langBiases) P =
     (case withSyncedResources B resource of
        Some err \<Rightarrow> P\<lparr>tasks := (tasks P)[i := Done (Inl err)]\<rparr>
      | None \<Rightarrow>
          (let (p, c') = getOrCreateLanguageDetectionWorker B (the_client P)
           in P\<lparr>the_client := c',
                tasks := (tasks P)[i := Awaiting p resource langBiases],
                received := received P @ [p]\<rparr>))"
| "resume_task B i (Awaiting p resource langBiases) P =
     P\<lparr>tasks := (tasks P)[i := Done (after_worker B p resource langBiases)]\<rparr>"
| "resume_task B i (Done r) P = P"

fun client_step :: "('w, 'p) boundary \<Rightarrow> client_event \<Rightarrow> 'w pool \<Rightarrow> 'w pool" where
  "client_step B (Call resource langBiases) P = P\<lparr>tasks := tasks P @ [Syncing resource langBiases]\<rparr>"
| "client_step B (Resume i) P =
     (if i < length (tasks P) then resume_task B i (tasks P ! i) P else P)"

definition client_run :: "('w, 'p) boundary \<Rightarrow> client_event list \<Rightarrow> 'w pool" where
  "client_run B evs = fold (client_step B) evs pool_new"

section \<open>Invariants and sample collaborators\<close>

text \<open>
  A history cache never holds a key twice and never more keys than its limit; the two native
  sets never hold an element twice and both caches were built with limit 10.
\<close>

definition cache_inv :: "'k LRUCache \<Rightarrow> bool" where
  "cache_inv c = (distinct (entries c) \<and> length (entries c) \<le> limit c)"

definition service_inv :: "service \<Rightarrow> bool" where
  "service_inv s =
     (distinct (workspaceLanguageIds s) \<and> distinct (sessionOpenedLanguageIds s) \<and>
      cache_inv (historicalGlobalOpenedLanguageIds s) \<and> limit (historicalGlobalOpenedLanguageIds s) = 10 \<and>
      cache_inv (historicalWorkspaceOpenedLanguageIds s) \<and> limit (historicalWorkspaceOpenedLanguageIds s) = 10)"

text \<open>
  A small concrete registry, parser and serialiser, for evaluating the model on examples: the
  parser knows the empty array and one array of a single id, and rejects everything else.
\<close>

definition python_payload :: string where
  \<open>python_payload = ''["python"]''\<close>

definition example_env :: env where
  "example_env =
     \<lparr>isRegisteredLanguageId = (\<lambda>l. l = ''python''),
      guessLanguageIdByFilepathOrFirstLine =
        (\<lambda>u. if u = URI_file ''file.py'' then Some ''python'' else None),
      JSON_parse =
        (\<lambda>s. if s = ''[]'' then Some (JArr [])
             else if s = python_payload then Some (JArr [JStr ''python''])
             else None),
      JSON_stringify = (\<lambda>j. if j = JArr [] then ''[]'' else ''[...]'')\<rparr>"

definition ten_languages :: "string list" where
  "ten_languages = [''c'', ''go'', ''js'', ''ts'', ''py'', ''rb'', ''cs'', ''hs'', ''ml'', ''rs'']"

text \<open>
  A registry that knows no language id but guesses \<^verbatim>\<open>plaintext\<close> for every file name.
\<close>

definition catch_all_env :: env where
  "catch_all_env =
     \<lparr>isRegisteredLanguageId = (\<lambda>l. False),
      guessLanguageIdByFilepathOrFirstLine = (\<lambda>u. Some ''plaintext''),
      JSON_parse = JSON_parse example_env,
      JSON_stringify = JSON_stringify example_env\<rparr>"

text \<open>A worker client that answers every request with the same raw code.\<close>

definition answering :: "string option \<Rightarrow> uri \<Rightarrow> biases option \<Rightarrow> error + string option" where
  "answering code resource langBiases = Inr code"

text \<open>
  A \<^verbatim>\<open>detectLanguage\<close> call that reads a truthy value of the history setting.
\<close>

definition history_call :: "event \<Rightarrow> bool" where
  "history_call ev = (case ev of DetectLanguage v \<Rightarrow> truthy v | _ \<Rightarrow> False)"

text \<open>
  A boundary whose first worker construction has the given outcome and whose later ones would
  succeed; nothing else fails.
\<close>

definition sample_boundary :: "(error + nat) \<Rightarrow> (nat, nat) boundary" where
  "sample_boundary first =
     \<lparr>newSimpleWorkerClient = (\<lambda>n. if n = 0 then first else Inr n),
      withSyncedResources = (\<lambda>resource. None),
      getProxyObject = (\<lambda>w. Inr w),
      proxy_detectLanguage = (\<lambda>proxy resource langBiases. Inr (Some ''py'')),
      URI_toString = (\<lambda>resource. case resource of URI_file path \<Rightarrow> path)\<rparr>"

text \<open>The promise a suspended task waits for, and the result of a finished one.\<close>

fun awaited :: "'w task \<Rightarrow> 'w promise option" where
  "awaited (Awaiting p resource langBiases) = Some p"
| "awaited _ = None"

fun finished :: "'w task \<Rightarrow> (error + string option) option" where
  "finished (Done r) = Some r"
| "finished _ = None"

text \<open>
  The state of a client and its calls is consistent: before the first creation nothing was
  handed out; afterwards there was one attempt, the memoized promise is the one of that
  attempt, and every promise handed out or awaited is that promise.
\<close>

definition pool_inv :: "('w, 'p) boundary \<Rightarrow> 'w pool \<Rightarrow> bool" where
  "pool_inv B P =
     (case workerPromise (the_client P) of
        None \<Rightarrow>
          creationAttempts (the_client P) = 0 \<and> received P = [] \<and>
          (\<forall>t \<in> set (tasks P). awaited t = None)
      | Some p \<Rightarrow>
          creationAttempts (the_client P) = 1 \<and> p = Promise 0 (newSimpleWorkerClient B 0) \<and>
          (\<forall>q \<in> set (received P). q = p) \<and>
          (\<forall>t \<in> set (tasks P). awaited t = None \<or> awaited t = Some p))"

text \<open>Every finished call was rejected with the given error.\<close>

definition done_inv :: "error \<Rightarrow> 'w pool \<Rightarrow> bool" where
  "done_inv err P = (\<forall>t \<in> set (tasks P). finished t = None \<or> finished t = Some (Inl err))"

section \<open>Properties of the history caches and of the service's sets\<close>

lemma Object_prototype_proto: "Object_prototype lang = None \<Longrightarrow> lang \<noteq> ''__proto__''"
  by (auto simp: Object_prototype_def)

lemma add_bias_other: "lang \<noteq> x \<Longrightarrow> add_bias w x b lang = b lang"
  by (simp add: add_bias_def property_set_def)

lemma add_bias_same:
  "Object_prototype lang = None \<Longrightarrow>
   add_bias w lang b lang =
     Some (plus_weight (case b lang of None \<Rightarrow> None | Some v \<Rightarrow> Some (Inl v)) w)"
  using Object_prototype_proto [of lang]
  by (simp add: add_bias_def property_set_def property_get_def split: option.splits)

lemma fold_add_bias:
  assumes "Object_prototype lang = None" and "distinct xs"
  shows "fold (add_bias w) xs b lang =
     (if lang \<in> set xs
      then Some (plus_weight (case b lang of None \<Rightarrow> None | Some v \<Rightarrow> Some (Inl v)) w)
      else b lang)"
  using assms(2)
proof (induction xs arbitrary: b)
  case Nil
  then show ?case by simp
next
  case (Cons x xs)
  show ?case
  proof (cases "lang = x")
    case True
    with Cons.prems have notin: "lang \<notin> set xs" and d: "distinct xs" by simp_all
    have "fold (add_bias w) (x # xs) b lang = fold (add_bias w) xs (add_bias w lang b) lang"
      using True by simp
    also have "\<dots> = add_bias w lang b lang"
      using Cons.IH [OF d] notin by simp
    also have "\<dots> = Some (plus_weight (case b lang of None \<Rightarrow> None | Some v \<Rightarrow> Some (Inl v)) w)"
      using assms(1) by (rule add_bias_same)
    finally show ?thesis using True by simp
  next
    case False
    with Cons show ?thesis by (simp add: add_bias_other)
  qed
qed

lemma LRUCache_set_limit [simp]: "limit (LRUCache_set k c) = limit c"
  by (simp add: LRUCache_set_def Let_def)

lemma LRUCache_set_inv: "distinct (entries c) \<Longrightarrow> cache_inv (LRUCache_set k c)"
proof -
  assume d: "distinct (entries c)"
  let ?es = "filter (\<lambda>k'. k' \<noteq> k) (entries c) @ [k]"
  have "distinct ?es" using d by simp
  then have "distinct (drop (length ?es - limit c) ?es)" by (rule distinct_drop)
  moreover have "length (drop (length ?es - limit c) ?es) \<le> limit c" by simp
  ultimately show ?thesis by (simp add: cache_inv_def LRUCache_set_def Let_def)
qed

lemma fold_LRUCache_set_limit [simp]: "limit (fold LRUCache_set ks c) = limit c"
  by (induction ks arbitrary: c) auto

lemma fold_LRUCache_set_inv: "cache_inv c \<Longrightarrow> cache_inv (fold LRUCache_set ks c)"
proof (induction ks arbitrary: c)
  case Nil
  then show ?case by simp
next
  case (Cons k ks)
  from Cons.prems have "distinct (entries c)" by (simp add: cache_inv_def)
  then have "cache_inv (LRUCache_set k c)" by (rule LRUCache_set_inv)
  then show ?case using Cons.IH by simp
qed

lemma LRUCache_fromJSON_inv: "cache_inv (fst (LRUCache_fromJSON data c))"
proof -
  have e: "cache_inv (c\<lparr>entries := []\<rparr>)" by (simp add: cache_inv_def)
  show ?thesis
    by (cases data) (simp_all add: LRUCache_fromJSON_def e fold_LRUCache_set_inv)
qed

lemma LRUCache_fromJSON_limit [simp]: "limit (fst (LRUCache_fromJSON data c)) = limit c"
  by (auto simp: LRUCache_fromJSON_def split: json.splits)


lemma distinct_Set_add: "distinct s \<Longrightarrow> distinct (Set_add x s)"
  by (simp add: Set_add_def)

lemma distinct_add_extension: "distinct s \<Longrightarrow> distinct (add_extension e ext s)"
  by (simp add: add_extension_def distinct_Set_add split: option.splits)

lemma distinct_fold_add_extension: "distinct s \<Longrightarrow> distinct (fold (add_extension e) exts s)"
  by (induction exts arbitrary: s) (simp_all add: distinct_add_extension)

lemma cache_inv_new: "cache_inv (LRUCache_new n)"
  by (simp add: cache_inv_def LRUCache_new_def)

lemma service_inv_new: "service_inv (LanguageDetectionService_new e st)"
  by (simp add: service_inv_def LanguageDetectionService_new_def initEditorOpenedListeners_def
      fields_init_def Let_def LRUCache_fromJSON_inv cache_inv_new split: option.splits)
     (simp add: LRUCache_new_def)

lemma service_inv_step: "service_inv s \<Longrightarrow> service_inv (service_step e ev s)"
proof (cases ev)
  case (DetectLanguage v)
  assume "service_inv s"
  then show ?thesis using DetectLanguage
    by (simp add: service_inv_def detectLanguage_request_def resolveWorkspaceLanguageIds_def Let_def)
next
  case (WorkspaceFileExtensions exts)
  assume "service_inv s"
  then show ?thesis using WorkspaceFileExtensions
    by (simp add: service_inv_def workspaceFileExtensions_resolved_def distinct_fold_add_extension)
next
  case (ActiveEditorChange lang)
  assume "service_inv s"
  then show ?thesis using ActiveEditorChange
    by (simp add: service_inv_def onDidActiveEditorChange_def Let_def distinct_Set_add
        LRUCache_set_inv cache_inv_def[of "historicalGlobalOpenedLanguageIds s"] cache_inv_def[of "historicalWorkspaceOpenedLanguageIds s"])
qed

lemma service_inv_fold: "service_inv s \<Longrightarrow> service_inv (fold (service_step e) evs s)"
  by (induction evs arbitrary: s) (simp_all add: service_inv_step)

lemma service_inv_run: "service_inv (service_run e st evs)"
  by (simp add: service_run_def service_inv_fold service_inv_new)

lemma filter_neq_absent: "k \<notin> set xs \<Longrightarrow> filter (\<lambda>x. x \<noteq> k) xs = xs"
  by (induction xs) auto

lemma length_filter_neq:
  "distinct xs \<Longrightarrow> k \<in> set xs \<Longrightarrow> Suc (length (filter (\<lambda>x. x \<noteq> k) xs)) = length xs"
  by (induction xs) (auto simp: filter_neq_absent)

lemma LRUCache_set_absent_full:
  assumes "k \<notin> set (entries c)" and "length (entries c) = limit c" and "0 < limit c"
  shows "entries (LRUCache_set k c) = tl (entries c) @ [k]"
proof -
  from assms obtain x xs where xs: "entries c = x # xs" by (cases "entries c") auto
  with assms show ?thesis
    by (simp add: LRUCache_set_def Let_def filter_neq_absent)
qed

lemma LRUCache_set_absent_room:
  assumes "k \<notin> set (entries c)" and "length (entries c) < limit c"
  shows "entries (LRUCache_set k c) = entries c @ [k]"
  using assms by (simp add: LRUCache_set_def Let_def filter_neq_absent)

lemma LRUCache_set_present:
  assumes "k \<in> set (entries c)" and "distinct (entries c)" and "length (entries c) \<le> limit c"
  shows "entries (LRUCache_set k c) = filter (\<lambda>x. x \<noteq> k) (entries c) @ [k]"
proof -
  have "Suc (length (filter (\<lambda>x. x \<noteq> k) (entries c))) = length (entries c)"
    using assms by (simp add: length_filter_neq)
  with assms(3) show ?thesis
    by (simp add: LRUCache_set_def Let_def)
qed

lemma LRUCache_set_cases:
  assumes "cache_inv c" and "limit c = 10"
  shows "LRUCache_size c \<le> 10 \<and> LRUCache_size (LRUCache_set k c) \<le> 10 \<and>
     (k \<notin> set (LRUCache_keys c) \<and> LRUCache_size c = 10 \<longrightarrow>
        LRUCache_keys (LRUCache_set k c) = tl (LRUCache_keys c) @ [k] \<and>
        LRUCache_size (LRUCache_set k c) = 10) \<and>
     (k \<notin> set (LRUCache_keys c) \<and> LRUCache_size c < 10 \<longrightarrow>
        LRUCache_keys (LRUCache_set k c) = LRUCache_keys c @ [k]) \<and>
     (k \<in> set (LRUCache_keys c) \<longrightarrow>
        LRUCache_keys (LRUCache_set k c) = filter (\<lambda>x. x \<noteq> k) (LRUCache_keys c) @ [k] \<and>
        LRUCache_size (LRUCache_set k c) = LRUCache_size c)"
proof -
  from assms have d: "distinct (entries c)" and l: "length (entries c) \<le> limit c"
    by (simp_all add: cache_inv_def)
  have b: "length (entries (LRUCache_set k c)) \<le> 10"
    using LRUCache_set_inv [OF d, of k] assms(2) by (simp add: cache_inv_def)
  have full: "entries (LRUCache_set k c) = tl (entries c) @ [k]"
    if "k \<notin> set (entries c)" "length (entries c) = 10"
    using that assms(2) by (simp add: LRUCache_set_absent_full)
  have room: "entries (LRUCache_set k c) = entries c @ [k]"
    if "k \<notin> set (entries c)" "length (entries c) < 10"
    using that assms(2) by (simp add: LRUCache_set_absent_room)
  have pres: "entries (LRUCache_set k c) = filter (\<lambda>x. x \<noteq> k) (entries c) @ [k]"
    if "k \<in> set (entries c)"
    using that d l by (rule LRUCache_set_present)
  have pres_len: "length (entries (LRUCache_set k c)) = length (entries c)"
    if "k \<in> set (entries c)"
    using pres [OF that] length_filter_neq [OF d that] by simp
  show ?thesis
    using l assms(2) b full room pres pres_len
    by (simp add: LRUCache_size_def LRUCache_keys_def)
qed

lemma step_editor_global:
  "k \<noteq> [] \<Longrightarrow> historicalGlobalOpenedLanguageIds (onDidActiveEditorChange e (Some k) s)
     = LRUCache_set k (historicalGlobalOpenedLanguageIds s)"
  by (simp add: onDidActiveEditorChange_def Let_def)

lemma step_editor_workspace:
  "k \<noteq> [] \<Longrightarrow> historicalWorkspaceOpenedLanguageIds (onDidActiveEditorChange e (Some k) s)
     = LRUCache_set k (historicalWorkspaceOpenedLanguageIds s)"
  by (simp add: onDidActiveEditorChange_def Let_def)


section \<open>Bias weights\<close>

text \<open>
  For a language id that \<^verbatim>\<open>Object.prototype\<close> has no property for, and in every state whose
  four sources hold no id twice (a native \<^verbatim>\<open>Set\<close> and the keys of a cache never do, see
  \<open>service_inv_run\<close>), \<^verbatim>\<open>getLanguageBiases\<close> gives the id the number 4 if it is in the
  session set, plus 3 if it is in the workspace set, plus 2 if it is in the workspace history,
  plus 1 if it is in the global history; an id in none of the four has no entry.
\<close>

lemma getLanguageBiases_weights_not_inherited:
  assumes "Object_prototype lang = None"
    and "distinct (sessionOpenedLanguageIds s)"
    and "distinct (workspaceLanguageIds s)"
    and "distinct (LRUCache_keys (historicalWorkspaceOpenedLanguageIds s))"
    and "distinct (LRUCache_keys (historicalGlobalOpenedLanguageIds s))"
  shows "getLanguageBiases s lang =
     (if lang \<in> set (sessionOpenedLanguageIds s) \<or> lang \<in> set (workspaceLanguageIds s) \<or>
         lang \<in> set (LRUCache_keys (historicalWorkspaceOpenedLanguageIds s)) \<or>
         lang \<in> set (LRUCache_keys (historicalGlobalOpenedLanguageIds s))
      then Some (Num ((if lang \<in> set (sessionOpenedLanguageIds s) then 4 else 0) +
                      (if lang \<in> set (workspaceLanguageIds s) then 3 else 0) +
                      (if lang \<in> set (LRUCache_keys (historicalWorkspaceOpenedLanguageIds s)) then 2 else 0) +
                      (if lang \<in> set (LRUCache_keys (historicalGlobalOpenedLanguageIds s)) then 1 else 0)))
      else None)"
  using assms(2-5)
  by (simp add: getLanguageBiases_def Let_def fold_add_bias [OF assms(1)] plus_weight_def)

lemma getLanguageBiases_all_four_sources:
  "getLanguageBiases
     \<lparr>hasResolvedWorkspaceLanguageIds = True,
      workspaceLanguageIds = [''go'', ''python''],
      sessionOpenedLanguageIds = [''python''],
      historicalGlobalOpenedLanguageIds = \<lparr>limit = 10, entries = [''ts'', ''python'']\<rparr>,
      historicalWorkspaceOpenedLanguageIds = \<lparr>limit = 10, entries = [''rust'', ''python'']\<rparr>,
      storageService = Map.empty,
      enumerationsStarted = 1,
      enumerationsPending = 0\<rparr> ''python'' = Some (Num 10)"
  by (simp add: getLanguageBiases_def Let_def LRUCache_keys_def add_bias_def property_get_def
        property_set_def plus_weight_def Object_prototype_def)

lemma run_constructor:
  "service_run example_env Map.empty [ActiveEditorChange (Some ''constructor'')] =
     \<lparr>hasResolvedWorkspaceLanguageIds = False,
      workspaceLanguageIds = [],
      sessionOpenedLanguageIds = [''constructor''],
      historicalGlobalOpenedLanguageIds = \<lparr>limit = 10, entries = [''constructor'']\<rparr>,
      historicalWorkspaceOpenedLanguageIds = \<lparr>limit = 10, entries = [''constructor'']\<rparr>,
      storageService = [GLOBAL \<mapsto> ''[...]'', WORKSPACE \<mapsto> ''[...]''],
      enumerationsStarted = 0,
      enumerationsPending = 0\<rparr>"
  by (simp add: service_run_def LanguageDetectionService_new_def initEditorOpenedListeners_def
        fields_init_def storage_get_def storage_store_def LRUCache_fromJSON_def LRUCache_new_def
        example_env_def onDidActiveEditorChange_def LRUCache_set_def LRUCache_toJSON_def Set_add_def
        Let_def)

lemma run_proto:
  "service_run example_env Map.empty [ActiveEditorChange (Some ''__proto__'')] =
     \<lparr>hasResolvedWorkspaceLanguageIds = False,
      workspaceLanguageIds = [],
      sessionOpenedLanguageIds = [''__proto__''],
      historicalGlobalOpenedLanguageIds = \<lparr>limit = 10, entries = [''__proto__'']\<rparr>,
      historicalWorkspaceOpenedLanguageIds = \<lparr>limit = 10, entries = [''__proto__'']\<rparr>,
      storageService = [GLOBAL \<mapsto> ''[...]'', WORKSPACE \<mapsto> ''[...]''],
      enumerationsStarted = 0,
      enumerationsPending = 0\<rparr>"
  by (simp add: service_run_def LanguageDetectionService_new_def initEditorOpenedListeners_def
        fields_init_def storage_get_def storage_store_def LRUCache_fromJSON_def LRUCache_new_def
        example_env_def onDidActiveEditorChange_def LRUCache_set_def LRUCache_toJSON_def Set_add_def
        Let_def)

text \<open>
  An id in three sources that is the accessor \<^verbatim>\<open>__proto__\<close> gets no entry at all: each read
  finds the prototype object, each write goes to the setter and is dropped.
\<close>

lemma getLanguageBiases_proto_absent:
  "getLanguageBiases (service_run example_env Map.empty [ActiveEditorChange (Some ''__proto__'')])
     ''__proto__'' = None"
  unfolding run_proto
  by (simp add: getLanguageBiases_def Let_def LRUCache_keys_def add_bias_def property_set_def)

text \<open>
  C2. The claim says that every language id gets the sum of the weights of the sources it is
  in. After one editor change to a language whose id is \<^verbatim>\<open>constructor\<close>, the id is in the
  session set and in both histories, so its weight should be 7. The first read of
  \<^verbatim>\<open>biases[lang]\<close> finds the inherited \<^verbatim>\<open>Object\<close> function, \<^verbatim>\<open>?? 0\<close> keeps it, and each
  \<^verbatim>\<open>+\<close> concatenates: the entry is a string.
\<close>

theorem getLanguageBiases_constructor_is_string:
  "getLanguageBiases (service_run example_env Map.empty [ActiveEditorChange (Some ''constructor'')])
     ''constructor'' = Some (Str ''function Object() { [native code] }421'')"
  unfolding run_constructor
  by (simp add: getLanguageBiases_def Let_def LRUCache_keys_def add_bias_def property_get_def
        property_set_def plus_weight_def Object_prototype_def Number_toString_def)

section \<open>Capacity of the history caches\<close>

lemma run_ten_languages:
  "historicalGlobalOpenedLanguageIds
     (service_run example_env Map.empty (map (\<lambda>l. ActiveEditorChange (Some l)) ten_languages))
   = \<lparr>limit = 10, entries = ten_languages\<rparr>"
  by (simp add: service_run_def LanguageDetectionService_new_def initEditorOpenedListeners_def
        fields_init_def storage_get_def LRUCache_fromJSON_def LRUCache_new_def example_env_def
        onDidActiveEditorChange_def LRUCache_set_def Let_def ten_languages_def)

text \<open>
  C8. Take any state \<open>s\<close> the service reaches from its construction, and let the active editor
  change to a language \<open>k\<close>. For the global and for the workspace history cache alike, with
  \<open>c\<close> the cache before and \<open>c'\<close> the cache after: both hold at most 10 entries; if \<open>k\<close>
  is new and \<open>c\<close> is full, \<open>c'\<close> is \<open>c\<close> without its least recently touched entry and with
  \<open>k\<close> as the most recent, still 10 entries; if \<open>k\<close> is new and there is room, it is
  appended; if \<open>k\<close> is present, it moves to the most recent position and the size is
  unchanged. The cache operations are modelled from the spec.
\<close>

theorem history_set_capacity:
  assumes "s = service_run e st evs"
    and "s' = service_step e (ActiveEditorChange (Some k)) s"
    and "k \<noteq> []"
    and "(c, c') = (historicalGlobalOpenedLanguageIds s, historicalGlobalOpenedLanguageIds s') \<or>
         (c, c') = (historicalWorkspaceOpenedLanguageIds s, historicalWorkspaceOpenedLanguageIds s')"
  shows "LRUCache_size c \<le> 10 \<and> LRUCache_size c' \<le> 10 \<and>
     (k \<notin> set (LRUCache_keys c) \<and> LRUCache_size c = 10 \<longrightarrow>
        LRUCache_keys c' = tl (LRUCache_keys c) @ [k] \<and> LRUCache_size c' = 10) \<and>
     (k \<notin> set (LRUCache_keys c) \<and> LRUCache_size c < 10 \<longrightarrow>
        LRUCache_keys c' = LRUCache_keys c @ [k]) \<and>
     (k \<in> set (LRUCache_keys c) \<longrightarrow>
        LRUCache_keys c' = filter (\<lambda>x. x \<noteq> k) (LRUCache_keys c) @ [k] \<and>
        LRUCache_size c' = LRUCache_size c)"
proof -
  have inv: "service_inv s" using assms(1) by (simp add: service_inv_run)
  from assms(4) show ?thesis
  proof
    assume "(c, c') = (historicalGlobalOpenedLanguageIds s, historicalGlobalOpenedLanguageIds s')"
    then have c: "c = historicalGlobalOpenedLanguageIds s" and c': "c' = LRUCache_set k c"
      using assms(2,3) by (simp_all add: step_editor_global)
    from inv c have "cache_inv c" "limit c = 10" by (simp_all add: service_inv_def)
    then show ?thesis unfolding c' by (rule LRUCache_set_cases)
  next
    assume "(c, c') = (historicalWorkspaceOpenedLanguageIds s, historicalWorkspaceOpenedLanguageIds s')"
    then have c: "c = historicalWorkspaceOpenedLanguageIds s" and c': "c' = LRUCache_set k c"
      using assms(2,3) by (simp_all add: step_editor_workspace)
    from inv c have "cache_inv c" "limit c = 10" by (simp_all add: service_inv_def)
    then show ?thesis unfolding c' by (rule LRUCache_set_cases)
  qed
qed

text \<open>Ten languages fill the global history; an eleventh evicts the oldest.\<close>

theorem history_set_capacity_witness:
  "LRUCache_keys (historicalGlobalOpenedLanguageIds
     (service_step example_env (ActiveEditorChange (Some ''sh''))
        (service_run example_env Map.empty
           (map (\<lambda>l. ActiveEditorChange (Some l)) ten_languages))))
   = tl ten_languages @ [''sh'']"
  using history_set_capacity [OF refl refl _ disjI1 [OF refl], of "''sh''" example_env
        Map.empty "map (\<lambda>l. ActiveEditorChange (Some l)) ten_languages"]
  unfolding run_ten_languages
  by (simp add: LRUCache_keys_def LRUCache_size_def ten_languages_def)


section \<open>Loading the persisted history\<close>

text \<open>
  Whatever the storage holds, construction never touches the workspace history cache, and it
  always completes: the model of the constructor has no error result, every exception of the
  two loads ends in its \<^verbatim>\<open>catch\<close>.
\<close>

lemma workspace_history_after_construction:
  "historicalWorkspaceOpenedLanguageIds (LanguageDetectionService_new e st) = LRUCache_new 10"
  by (simp add: LanguageDetectionService_new_def initEditorOpenedListeners_def fields_init_def
        Let_def split: option.splits)

lemma both_slots_unusable_history_empty:
  assumes "JSON_parse e ''[]'' = Some (JArr [])"
    and "st GLOBAL = None \<or> JSON_parse e (the (st GLOBAL)) = None"
    and "st WORKSPACE = None \<or> JSON_parse e (the (st WORKSPACE)) = None"
  shows "LRUCache_keys (historicalGlobalOpenedLanguageIds (LanguageDetectionService_new e st)) = []"
  using assms
  by (auto simp: LanguageDetectionService_new_def initEditorOpenedListeners_def fields_init_def
        Let_def storage_get_def LRUCache_fromJSON_def LRUCache_new_def LRUCache_keys_def
        split: option.splits)

text \<open>
  With \<^verbatim>\<open>fromJSON\<close> replacing the contents, as modelled, the second load also discards what
  the first one read: a global slot holding \<^verbatim>\<open>["python"]\<close> is lost when the workspace slot
  is empty.
\<close>

lemma global_slot_discarded_by_second_load:
  "LRUCache_keys (historicalGlobalOpenedLanguageIds
      (LanguageDetectionService_new example_env (Map.empty(GLOBAL \<mapsto> python_payload)))) = []"
  by (simp add: LanguageDetectionService_new_def initEditorOpenedListeners_def fields_init_def
        Let_def example_env_def storage_get_def LRUCache_fromJSON_def LRUCache_new_def
        LRUCache_set_def LRUCache_keys_def python_payload_def)

text \<open>
  C1. The claim says that each scope's slot is loaded into the same scope's history. The second
  load of \<^verbatim>\<open>initEditorOpenedListeners\<close> (line 151) calls \<^verbatim>\<open>fromJSON\<close> on
  \<^verbatim>\<open>historicalGlobalOpenedLanguageIds\<close>: with the workspace slot holding \<^verbatim>\<open>["python"]\<close> and
  the global slot empty, the workspace history stays empty and the global history holds
  \<^verbatim>\<open>python\<close>.
\<close>

theorem workspace_slot_loaded_into_global_history:
  "LRUCache_keys (historicalWorkspaceOpenedLanguageIds
      (LanguageDetectionService_new example_env (Map.empty(WORKSPACE \<mapsto> python_payload)))) = [] \<and>
   LRUCache_keys (historicalGlobalOpenedLanguageIds
      (LanguageDetectionService_new example_env (Map.empty(WORKSPACE \<mapsto> python_payload)))) = [''python'']"
  by (simp add: LanguageDetectionService_new_def initEditorOpenedListeners_def fields_init_def
        Let_def example_env_def storage_get_def LRUCache_fromJSON_def LRUCache_new_def
        LRUCache_set_def LRUCache_keys_def python_payload_def)

text \<open>
  C9. The claim says that a missing or malformed slot leaves its scope's history empty. With a
  malformed global slot and the workspace slot holding \<^verbatim>\<open>["python"]\<close>, the global history
  is not empty after construction: the workspace slot was loaded into it (line 151).
\<close>

theorem malformed_global_slot_history_not_empty:
  "JSON_parse example_env ''{oops'' = None \<and>
   LRUCache_keys (historicalGlobalOpenedLanguageIds
      (LanguageDetectionService_new example_env
         (Map.empty(GLOBAL \<mapsto> ''{oops'', WORKSPACE \<mapsto> python_payload)))) = [''python'']"
  by (simp add: LanguageDetectionService_new_def initEditorOpenedListeners_def fields_init_def
        Let_def example_env_def storage_get_def LRUCache_fromJSON_def LRUCache_new_def
        LRUCache_set_def LRUCache_keys_def python_payload_def)

section \<open>Resolving the worker's raw code\<close>

text \<open>
  C6, as amended. For every non-empty raw code the worker returns: if the code is a registered
  language id, \<^verbatim>\<open>detectLanguage\<close> returns it unchanged, having asked the registry only
  whether it is registered; otherwise it asks the registry to guess from the file name
  \<^verbatim>\<open>file.<code>\<close> and returns that guess, which is \<^verbatim>\<open>undefined\<close> when there is none.
\<close>

theorem detectLanguage_canonical:
  assumes "code \<noteq> []"
    and "workerClient resource (fst (detectLanguage_request useHistory s)) = Inr (Some code)"
  shows "detectLanguage e useHistory workerClient resource s =
     (if isRegisteredLanguageId e code
      then (Inr (Some code), [Query_isRegisteredLanguageId code],
            snd (detectLanguage_request useHistory s))
      else (Inr (guessLanguageIdByFilepathOrFirstLine e (URI_file (''file.'' @ code))),
            [Query_isRegisteredLanguageId code,
             Query_guessLanguageIdByFilepathOrFirstLine (URI_file (''file.'' @ code))],
            snd (detectLanguage_request useHistory s)))"
  using assms
  by (simp add: detectLanguage_def detectLanguage_response_def getLanguageId_def
        split_beta)

text \<open>The raw code \<^verbatim>\<open>py\<close> is not registered; the registry guesses \<^verbatim>\<open>python\<close> for \<^verbatim>\<open>file.py\<close>.\<close>

theorem detectLanguage_canonical_witness:
  "fst (detectLanguage example_env (Boolean False) (answering (Some ''py'')) (URI_file ''/a'')
          (LanguageDetectionService_new example_env Map.empty)) = Inr (Some ''python'')"
  using detectLanguage_canonical [of "''py''" "answering (Some ''py'')" "URI_file ''/a''"
      "Boolean False" "LanguageDetectionService_new example_env Map.empty" example_env]
  by (simp add: example_env_def answering_def)

text \<open>
  The claim as stated, for every raw code, fails at the empty string: the registry would guess
  \<^verbatim>\<open>plaintext\<close> for \<^verbatim>\<open>file.\<close>, and \<^verbatim>\<open>detectLanguage\<close> returns \<^verbatim>\<open>undefined\<close>.
\<close>

theorem canonical_resolution_counterexample:
  "fst (detectLanguage catch_all_env (Boolean False) (answering (Some [])) (URI_file ''/a'')
          (LanguageDetectionService_new catch_all_env Map.empty))
   \<noteq> Inr (if isRegisteredLanguageId catch_all_env []
            then Some []
            else guessLanguageIdByFilepathOrFirstLine catch_all_env (URI_file (''file.'' @ [])))"
  by (simp add: detectLanguage_def detectLanguage_response_def split_beta answering_def
        catch_all_env_def)

text \<open>
  C10. \<^verbatim>\<open>getLanguageId\<close> returns \<^verbatim>\<open>undefined\<close> for \<^verbatim>\<open>undefined\<close> and for the empty string,
  with no call to the registry. When the worker answers with the empty string,
  \<^verbatim>\<open>detectLanguage\<close> returns \<^verbatim>\<open>undefined\<close>, with no call to the registry, exactly as when
  the worker answers with \<^verbatim>\<open>undefined\<close>.
\<close>

theorem detectLanguage_empty_code:
  "getLanguageId e None = (None, []) \<and> getLanguageId e (Some []) = (None, []) \<and>
   (workerClient resource (fst (detectLanguage_request useHistory s)) = Inr (Some []) \<or>
    workerClient resource (fst (detectLanguage_request useHistory s)) = Inr None \<longrightarrow>
      detectLanguage e useHistory workerClient resource s =
        (Inr None, [], snd (detectLanguage_request useHistory s)))"
proof -
  have resolver: "getLanguageId e None = (None, [])" "getLanguageId e (Some []) = (None, [])"
    by (simp_all add: getLanguageId_def)
  have response: "detectLanguage_response e language = (None, [])"
    if "language = Some [] \<or> language = None" for language
    using that by (auto simp: detectLanguage_response_def)
  have call: "detectLanguage e useHistory workerClient resource s =
      (Inr None, [], snd (detectLanguage_request useHistory s))"
    if "workerClient resource (fst (detectLanguage_request useHistory s)) = Inr language"
      and "language = Some [] \<or> language = None" for language
    using that(1) response [OF that(2)] by (simp add: detectLanguage_def split_beta)
  from resolver call show ?thesis by blast
qed

text \<open>The catch-all registry is never asked.\<close>

theorem detectLanguage_empty_code_witness:
  "detectLanguage catch_all_env (Boolean False) (answering (Some [])) (URI_file ''/a'')
     (fields_init Map.empty) = (Inr None, [], fields_init Map.empty)"
  using detectLanguage_empty_code [of catch_all_env "answering (Some [])" "URI_file ''/a''"
      "Boolean False" "fields_init Map.empty"]
  by (simp add: answering_def detectLanguage_request_def)

section \<open>The bias argument\<close>

text \<open>
  C7. When the value of the history setting is falsy, the bias argument handed to the worker
  client is \<^verbatim>\<open>undefined\<close>, whatever the session, workspace and history sets hold; the call
  leaves the state as it was and its outcome is the client's answer to \<^verbatim>\<open>undefined\<close> biases.
\<close>

theorem history_disabled_no_biases:
  assumes "\<not> truthy useHistory"
  shows "fst (detectLanguage_request useHistory s) = None \<and>
         detectLanguage e useHistory workerClient resource s =
           (case workerClient resource None of
              Inl err \<Rightarrow> (Inl err, [], s)
            | Inr language \<Rightarrow>
                (Inr (fst (detectLanguage_response e language)),
                 snd (detectLanguage_response e language), s))"
  using assms
  by (simp add: detectLanguage_def detectLanguage_request_def split_beta split: sum.splits)

text \<open>The session and both histories hold \<^verbatim>\<open>go\<close>; the setting is \<^verbatim>\<open>false\<close>.\<close>

theorem history_disabled_no_biases_witness:
  "fst (detectLanguage_request (Boolean False)
          (service_run example_env Map.empty [ActiveEditorChange (Some ''go'')])) = None"
  using history_disabled_no_biases [of "Boolean False"
      "service_run example_env Map.empty [ActiveEditorChange (Some ''go'')]"]
  by simp

section \<open>Resolving the workspace languages once\<close>

lemma new_unresolved:
  "hasResolvedWorkspaceLanguageIds (LanguageDetectionService_new e st) = False \<and>
   enumerationsStarted (LanguageDetectionService_new e st) = 0"
  by (simp add: LanguageDetectionService_new_def initEditorOpenedListeners_def fields_init_def
        Let_def split: option.splits)

lemma step_resolved:
  "hasResolvedWorkspaceLanguageIds (service_step e ev s) =
     (hasResolvedWorkspaceLanguageIds s \<or> history_call ev)"
  by (cases ev)
     (auto simp: history_call_def detectLanguage_request_def resolveWorkspaceLanguageIds_def
        workspaceFileExtensions_resolved_def onDidActiveEditorChange_def Let_def)

lemma step_started:
  "enumerationsStarted (service_step e ev s) =
     (if history_call ev \<and> \<not> hasResolvedWorkspaceLanguageIds s
      then enumerationsStarted s + 1 else enumerationsStarted s)"
  by (cases ev)
     (auto simp: history_call_def detectLanguage_request_def resolveWorkspaceLanguageIds_def
        workspaceFileExtensions_resolved_def onDidActiveEditorChange_def Let_def)

lemma fold_resolved:
  "hasResolvedWorkspaceLanguageIds (fold (service_step e) evs s) =
     (hasResolvedWorkspaceLanguageIds s \<or> list_ex history_call evs)"
  by (induction evs arbitrary: s) (auto simp: step_resolved)

lemma fold_started:
  "enumerationsStarted (fold (service_step e) evs s) =
     (if list_ex history_call evs \<and> \<not> hasResolvedWorkspaceLanguageIds s
      then enumerationsStarted s + 1 else enumerationsStarted s)"
  by (induction evs arbitrary: s) (auto simp: step_started step_resolved)

text \<open>
  C4. After any sequence of events since construction (calls, deliveries of the enumeration,
  editor changes, in any order), the file-extension enumeration has been requested exactly once
  if some \<^verbatim>\<open>detectLanguage\<close> call found the history setting enabled, and never otherwise; the
  flag \<^verbatim>\<open>hasResolvedWorkspaceLanguageIds\<close> is set exactly in the first case, and a further
  call then leaves the count at one.
\<close>

theorem workspace_resolution_once:
  "enumerationsStarted (service_run e st evs) = (if list_ex history_call evs then 1 else 0) \<and>
   hasResolvedWorkspaceLanguageIds (service_run e st evs) = list_ex history_call evs \<and>
   (hasResolvedWorkspaceLanguageIds (service_run e st evs) \<longrightarrow>
      enumerationsStarted (service_step e (DetectLanguage useHistory) (service_run e st evs)) = 1 \<and>
      hasResolvedWorkspaceLanguageIds
        (service_step e (DetectLanguage useHistory) (service_run e st evs)))"
  by (simp add: service_run_def fold_resolved fold_started new_unresolved step_started
        step_resolved del: service_step.simps)

text \<open>Three calls before the enumeration delivers, one after: one request.\<close>

theorem workspace_resolution_once_witness:
  "enumerationsStarted
     (service_run example_env Map.empty
        [DetectLanguage (Boolean True), DetectLanguage (Boolean True),
         DetectLanguage (Boolean True), WorkspaceFileExtensions [''py''],
         DetectLanguage (Boolean True)]) = 1"
  using workspace_resolution_once [of example_env Map.empty
        "[DetectLanguage (Boolean True), DetectLanguage (Boolean True),
          DetectLanguage (Boolean True), WorkspaceFileExtensions [''py''],
          DetectLanguage (Boolean True)]" "Boolean True"]
  by (simp add: history_call_def)

section \<open>Creating the worker once\<close>

lemma pool_inv_new: "pool_inv B pool_new"
  by (simp add: pool_inv_def pool_new_def client_new_def)

lemma set_update_cases: "t \<in> set (xs[i := x]) \<Longrightarrow> t = x \<or> t \<in> set xs"
  using set_update_subset_insert [of xs i x] by auto

lemma pool_inv_resume:
  assumes "pool_inv B P"
  shows "pool_inv B (resume_task B i t P)"
proof (cases t)
  case (Syncing resource langBiases)
  show ?thesis
  proof (cases "withSyncedResources B resource")
    case None
    show ?thesis
    proof (cases "workerPromise (the_client P)")
      case n: None
      with assms Syncing None show ?thesis
        by (auto simp: pool_inv_def getOrCreateLanguageDetectionWorker_def Let_def
            dest!: set_update_cases)
    next
      case (Some p)
      with assms Syncing None show ?thesis
        by (auto simp: pool_inv_def getOrCreateLanguageDetectionWorker_def Let_def
            dest!: set_update_cases)
    qed
  next
    case (Some err)
    with assms Syncing show ?thesis
      by (auto simp: pool_inv_def split: option.splits dest!: set_update_cases)
  qed
next
  case (Awaiting p resource langBiases)
  with assms show ?thesis
    by (auto simp: pool_inv_def split: option.splits dest!: set_update_cases)
next
  case (Done r)
  with assms show ?thesis by simp
qed

lemma pool_inv_step: "pool_inv B P \<Longrightarrow> pool_inv B (client_step B ev P)"
proof (cases ev)
  case (Call resource langBiases)
  assume "pool_inv B P"
  with Call show ?thesis by (auto simp: pool_inv_def split: option.splits)
next
  case (Resume i)
  assume "pool_inv B P"
  with Resume show ?thesis by (simp add: pool_inv_resume)
qed

lemma pool_inv_fold: "pool_inv B P \<Longrightarrow> pool_inv B (fold (client_step B) evs P)"
  by (induction evs arbitrary: P) (simp_all add: pool_inv_step)

lemma pool_inv_run: "pool_inv B (client_run B evs)"
  by (simp add: client_run_def pool_inv_fold pool_inv_new)

text \<open>
  A call that runs without interleaving is the task of the pool resumed twice: the pool agrees
  with \<^verbatim>\<open>detectLanguage\<close> as the source writes it.
\<close>

lemma call_then_resume_twice:
  "client_step B (Resume (length (tasks P)))
     (client_step B (Resume (length (tasks P))) (client_step B (Call resource langBiases) P)) =
   P\<lparr>the_client := snd (client_detectLanguage B resource langBiases (the_client P)),
     tasks := tasks P @ [Done (fst (client_detectLanguage B resource langBiases (the_client P)))],
     received := (case withSyncedResources B resource of
                    Some err \<Rightarrow> received P
                  | None \<Rightarrow> received P @ [fst (getOrCreateLanguageDetectionWorker B (the_client P))])\<rparr>"
  by (simp add: client_detectLanguage_def split_beta split: option.splits)

text \<open>
  C3. After any number of calls, resumed in any order: at most one worker construction was
  attempted, exactly one as soon as some call has asked for the worker; every promise a call
  received is the memoized one, the promise of attempt 0; and every call still waiting waits
  for that promise.
\<close>

theorem worker_created_once:
  "creationAttempts (the_client (client_run B evs)) \<le> 1 \<and>
   (received (client_run B evs) \<noteq> [] \<longrightarrow> creationAttempts (the_client (client_run B evs)) = 1) \<and>
   (\<forall>p \<in> set (received (client_run B evs)).
      workerPromise (the_client (client_run B evs)) = Some p \<and>
      p = Promise 0 (newSimpleWorkerClient B 0)) \<and>
   (\<forall>t \<in> set (tasks (client_run B evs)). \<forall>p. awaited t = Some p \<longrightarrow>
      workerPromise (the_client (client_run B evs)) = Some p)"
  using pool_inv_run [of B evs]
  by (auto simp: pool_inv_def split: option.splits)

text \<open>Three calls issued before any of them resumes: one construction, one promise.\<close>

theorem worker_created_once_witness:
  "received (client_run (sample_boundary (Inr 7))
       [Call (URI_file ''/a'') None, Call (URI_file ''/b'') None, Call (URI_file ''/c'') None,
        Resume 2, Resume 0, Resume 1]) = [Promise 0 (Inr 7), Promise 0 (Inr 7), Promise 0 (Inr 7)] \<and>
   creationAttempts (the_client (client_run (sample_boundary (Inr 7))
       [Call (URI_file ''/a'') None, Call (URI_file ''/b'') None, Call (URI_file ''/c'') None,
        Resume 2, Resume 0, Resume 1])) = 1"
  using worker_created_once [of "sample_boundary (Inr 7)"
       "[Call (URI_file ''/a'') None, Call (URI_file ''/b'') None, Call (URI_file ''/c'') None,
        Resume 2, Resume 0, Resume 1]"]
  by (simp add: sample_boundary_def client_run_def pool_new_def client_new_def
        getOrCreateLanguageDetectionWorker_def Let_def)

section \<open>A failed creation stays failed\<close>

lemma after_worker_failed: "settled p = Inl err \<Longrightarrow> after_worker B p resource langBiases = Inl err"
  by (simp add: after_worker_def)

lemma done_inv_resume:
  assumes "newSimpleWorkerClient B 0 = Inl err"
    and "\<forall>resource. withSyncedResources B resource = None \<or>
           withSyncedResources B resource = Some err"
    and "pool_inv B P" and "done_inv err P" and "i < length (tasks P)"
  shows "done_inv err (resume_task B i (tasks P ! i) P)"
proof (cases "tasks P ! i")
  case (Syncing resource langBiases)
  from assms(2) have "withSyncedResources B resource = None \<or>
      withSyncedResources B resource = Some err" by simp
  with assms(4) Syncing show ?thesis
    by (auto simp: done_inv_def split_beta dest!: set_update_cases)
next
  case (Awaiting p resource langBiases)
  with assms(5) have "Awaiting p resource langBiases \<in> set (tasks P)"
    by (metis nth_mem)
  with assms(3) have "p = Promise 0 (newSimpleWorkerClient B 0)"
    by (auto simp: pool_inv_def split: option.splits)
  with assms(1) have "after_worker B p resource langBiases = Inl err"
    by (simp add: after_worker_failed)
  with assms(4) Awaiting show ?thesis
    by (auto simp: done_inv_def dest!: set_update_cases)
next
  case (Done r)
  with assms(4) show ?thesis by simp
qed

lemma done_inv_step:
  assumes "newSimpleWorkerClient B 0 = Inl err"
    and "\<forall>resource. withSyncedResources B resource = None \<or>
           withSyncedResources B resource = Some err"
    and "pool_inv B P" and "done_inv err P"
  shows "done_inv err (client_step B ev P)"
proof (cases ev)
  case (Call resource langBiases)
  with assms(4) show ?thesis by (auto simp: done_inv_def)
next
  case (Resume i)
  with assms show ?thesis by (simp add: done_inv_resume)
qed

lemma done_inv_fold:
  assumes "newSimpleWorkerClient B 0 = Inl err"
    and "\<forall>resource. withSyncedResources B resource = None \<or>
           withSyncedResources B resource = Some err"
  shows "pool_inv B P \<Longrightarrow> done_inv err P \<Longrightarrow> done_inv err (fold (client_step B) evs P)"
proof (induction evs arbitrary: P)
  case Nil
  then show ?case by simp
next
  case (Cons ev evs)
  have "pool_inv B (client_step B ev P)" using Cons.prems(1) by (rule pool_inv_step)
  moreover have "done_inv err (client_step B ev P)"
    using assms Cons.prems by (rule done_inv_step)
  ultimately show ?case using Cons.IH by simp
qed

lemma done_inv_run:
  assumes "newSimpleWorkerClient B 0 = Inl err"
    and "\<forall>resource. withSyncedResources B resource = None \<or>
           withSyncedResources B resource = Some err"
  shows "done_inv err (client_run B evs)"
  unfolding client_run_def
  using assms pool_inv_new by (rule done_inv_fold) (simp add: done_inv_def pool_new_def)

lemma resume_twice_finished:
  assumes "i < length (tasks P)"
  shows "finished (tasks (client_step B (Resume i) (client_step B (Resume i) P)) ! i) \<noteq> None"
proof (cases "tasks P ! i")
  case (Syncing resource langBiases)
  with assms show ?thesis by (simp add: split_beta split: option.splits)
next
  case (Awaiting p resource langBiases)
  with assms show ?thesis by simp
next
  case (Done r)
  with assms show ?thesis by simp
qed

lemma length_tasks_resume [simp]: "length (tasks (resume_task B i t P)) = length (tasks P)"
  by (cases t) (simp_all add: split_beta split: option.splits)

lemma client_run_append:
  "client_run B (evs @ evs') = fold (client_step B) evs' (client_run B evs)"
  by (simp add: client_run_def)

text \<open>
  C5. Let the first worker construction throw \<open>err\<close>, and let the inherited resource
  synchronisation raise no error of its own (none, or the same \<open>err\<close>). Then after any number
  of calls, resumed in any order: at most one construction was attempted, although a second
  one might have succeeded; every promise handed out is rejected with \<open>err\<close>; every finished
  call was rejected with \<open>err\<close>; and every call issued so far is rejected with \<open>err\<close> once
  it has been resumed twice.
\<close>

theorem failed_creation_is_permanent:
  assumes "newSimpleWorkerClient B 0 = Inl err"
    and "\<forall>resource. withSyncedResources B resource = None \<or>
           withSyncedResources B resource = Some err"
  shows "creationAttempts (the_client (client_run B evs)) \<le> 1 \<and>
     (\<forall>p \<in> set (received (client_run B evs)). settled p = Inl err) \<and>
     (\<forall>t \<in> set (tasks (client_run B evs)). \<forall>r. t = Done r \<longrightarrow> r = Inl err) \<and>
     (\<forall>i < length (tasks (client_run B evs)).
        tasks (client_run B (evs @ [Resume i, Resume i])) ! i = Done (Inl err))"
proof -
  have inv: "pool_inv B (client_run B evs)" by (rule pool_inv_run)
  have a: "creationAttempts (the_client (client_run B evs)) \<le> 1"
    using inv by (auto simp: pool_inv_def split: option.splits)
  have b: "\<forall>p \<in> set (received (client_run B evs)). settled p = Inl err"
    using inv assms(1) by (auto simp: pool_inv_def split: option.splits)
  have c: "\<forall>t \<in> set (tasks (client_run B evs)). \<forall>r. t = Done r \<longrightarrow> r = Inl err"
    using done_inv_run [OF assms, of evs] by (auto simp: done_inv_def)
  have d: "tasks (client_run B (evs @ [Resume i, Resume i])) ! i = Done (Inl err)"
    if i: "i < length (tasks (client_run B evs))" for i
  proof -
    let ?P = "client_run B (evs @ [Resume i, Resume i])"
    have eq: "?P = client_step B (Resume i) (client_step B (Resume i) (client_run B evs))"
      by (simp add: client_run_append)
    have len: "i < length (tasks ?P)" using i unfolding eq by simp
    have fin: "finished (tasks ?P ! i) \<noteq> None"
      unfolding eq using i by (rule resume_twice_finished)
    have "done_inv err ?P" using assms by (rule done_inv_run)
    with len have "finished (tasks ?P ! i) = None \<or> finished (tasks ?P ! i) = Some (Inl err)"
      by (simp add: done_inv_def)
    with fin have "finished (tasks ?P ! i) = Some (Inl err)" by auto
    then show ?thesis by (cases "tasks ?P ! i") simp_all
  qed
  from a b c d show ?thesis by blast
qed

text \<open>Two calls after a construction that throws: both rejected, one attempt.\<close>

theorem failed_creation_is_permanent_witness:
  "tasks (client_run (sample_boundary (Inl (Error ''no worker'')))
       [Call (URI_file ''/a'') None, Call (URI_file ''/b'') None, Resume 0, Resume 0, Resume 1,
        Resume 1]) = [Done (Inl (Error ''no worker'')), Done (Inl (Error ''no worker''))] \<and>
   creationAttempts (the_client (client_run (sample_boundary (Inl (Error ''no worker'')))
       [Call (URI_file ''/a'') None, Call (URI_file ''/b'') None, Resume 0, Resume 0, Resume 1,
        Resume 1])) = 1"
  using failed_creation_is_permanent [of "sample_boundary (Inl (Error ''no worker''))"
      "Error ''no worker''"
      "[Call (URI_file ''/a'') None, Call (URI_file ''/b'') None, Resume 0, Resume 0, Resume 1,
        Resume 1]"]
  by (simp add: sample_boundary_def client_run_def pool_new_def client_new_def
        getOrCreateLanguageDetectionWorker_def after_worker_def Let_def)

end
